theory Spec2Isabelle
  imports Main "HOL-Library.Sublist"
begin

section \<open>mail-analyzer: the email package (email/email.go) and the mbox loop of main\<close>

text \<open>
  A Go \<open>string\<close> and a Go \<open>[]byte\<close> are byte sequences; both are modelled as
  \<^typ>\<open>string\<close> (a list of 8-bit characters). Every pattern and cut set of the source
  is ASCII, and no byte of a multi-byte UTF-8 sequence is an ASCII byte, so working on
  bytes gives the results the rune-based Go functions give.
\<close>

subsection \<open>Errors\<close>

text \<open>
  Errors of the libraries are opaque messages (\<open>External\<close>); the three
  \<open>fmt.Errorf\<close> calls of email.go are constructors of their own.
\<close>

datatype error =
    External string
  | ReadEntityFailed error        \<comment> \<open>"failed to read message entity: %w"\<close>
  | UnsupportedCharset string     \<comment> \<open>"unsupported charset: %s"\<close>
  | DecodeFailed string error     \<comment> \<open>"failed to decode content from %s: %w"\<close>

subsection \<open>Functions of package strings\<close>

text \<open>\<open>strings.TrimRight(s, cutset)\<close> and \<open>strings.Trim(s, cutset)\<close>, ASCII cut set.\<close>

definition TrimRight :: "string \<Rightarrow> string \<Rightarrow> string" where
  "TrimRight s cutset = rev (dropWhile (\<lambda>c. c \<in> set cutset) (rev s))"

definition Trim :: "string \<Rightarrow> string \<Rightarrow> string" where
  "Trim s cutset = dropWhile (\<lambda>c. c \<in> set cutset) (TrimRight s cutset)"

text \<open>
  White space as \<open>unicode.IsSpace\<close> defines it, each code point in its UTF-8 encoding:
  the six ASCII characters, U+0085, U+00A0, U+1680, U+2000 to U+200A, U+2028, U+2029,
  U+202F, U+205F and U+3000.
\<close>

definition spaceSeqs :: "string list" where
  "spaceSeqs =
    [[CHR 0x09], [CHR 0x0A], [CHR 0x0B], [CHR 0x0C], [CHR 0x0D], [CHR 0x20],
     [CHR 0xC2, CHR 0x85], [CHR 0xC2, CHR 0xA0],
     [CHR 0xE1, CHR 0x9A, CHR 0x80],
     [CHR 0xE2, CHR 0x80, CHR 0x80], [CHR 0xE2, CHR 0x80, CHR 0x81],
     [CHR 0xE2, CHR 0x80, CHR 0x82], [CHR 0xE2, CHR 0x80, CHR 0x83],
     [CHR 0xE2, CHR 0x80, CHR 0x84], [CHR 0xE2, CHR 0x80, CHR 0x85],
     [CHR 0xE2, CHR 0x80, CHR 0x86], [CHR 0xE2, CHR 0x80, CHR 0x87],
     [CHR 0xE2, CHR 0x80, CHR 0x88], [CHR 0xE2, CHR 0x80, CHR 0x89],
     [CHR 0xE2, CHR 0x80, CHR 0x8A],
     [CHR 0xE2, CHR 0x80, CHR 0xA8], [CHR 0xE2, CHR 0x80, CHR 0xA9],
     [CHR 0xE2, CHR 0x80, CHR 0xAF], [CHR 0xE2, CHR 0x81, CHR 0x9F],
     [CHR 0xE3, CHR 0x80, CHR 0x80]]"

text \<open>The number of bytes of the white-space character \<open>s\<close> starts with (0: none).\<close>

definition spaceLen :: "string list \<Rightarrow> string \<Rightarrow> nat" where
  "spaceLen seqs s = (case find (\<lambda>q. prefix q s) seqs of None \<Rightarrow> 0 | Some q \<Rightarrow> length q)"

fun trimLeftSeqs :: "string list \<Rightarrow> string \<Rightarrow> string" where
  "trimLeftSeqs seqs [] = []"
| "trimLeftSeqs seqs (c # cs) =
     (let n = spaceLen seqs (c # cs)
      in if 0 < n then trimLeftSeqs seqs (drop (n - 1) cs) else c # cs)"

text \<open>
  \<open>strings.TrimSpace\<close>: leading white space goes, then trailing white space (the
  last rune is white space exactly when the bytes end with one of the encodings).
\<close>

definition TrimSpace :: "string \<Rightarrow> string" where
  "TrimSpace s = rev (trimLeftSeqs (map rev spaceSeqs) (rev (trimLeftSeqs spaceSeqs s)))"

text \<open>
  \<open>strings.ToLower\<close>: on a string of ASCII bytes only, the letters A to Z are mapped to
  a to z. On any other string Go maps every rune through the Unicode tables; that
  mapping is a parameter (\<open>unicodeLower\<close>).
\<close>

definition asciiLower :: "char \<Rightarrow> char" where
  "asciiLower c =
     (if of_char c \<ge> (65::nat) \<and> of_char c \<le> (90::nat) then char_of (of_char c + (32::nat)) else c)"

definition isASCII :: "string \<Rightarrow> bool" where
  "isASCII s = list_all (\<lambda>c. of_char c < (128::nat)) s"

definition ToLower :: "(string \<Rightarrow> string) \<Rightarrow> string \<Rightarrow> string" where
  "ToLower unicodeLower s = (if isASCII s then map asciiLower s else unicodeLower s)"

subsection \<open>The three regular expressions\<close>

text \<open>
  The patterns of email.go are sequences of single-character items: a character class,
  taken once, optionally (\<open>?\<close>), greedily repeated (\<open>*\<close>) or lazily repeated
  (\<open>*?\<close>); \<open>x+\<close> is \<open>xx*\<close>. \<open>Mark\<close> stands for a parenthesis of the capture
  group. Go's regexp returns, at the leftmost position that matches, the match a
  backtracking search finds first; \<open>rmatch\<close> is that search at one position. It
  returns the input left after the match and the inputs left at each \<open>Mark\<close>.
\<close>

datatype cls = Of string | Not string

fun accepts :: "cls \<Rightarrow> char \<Rightarrow> bool" where
  "accepts (Of cs) c = (c \<in> set cs)"
| "accepts (Not cs) c = (c \<notin> set cs)"

datatype item = Lit cls | Opt cls | Star cls | LazyStar cls | Mark

fun rmatch :: "item list \<Rightarrow> string \<Rightarrow> (string \<times> string list) option" where
  "rmatch [] s = Some (s, [])"
| "rmatch (Lit k # is) [] = None"
| "rmatch (Lit k # is) (c # cs) = (if accepts k c then rmatch is cs else None)"
| "rmatch (Opt k # is) [] = rmatch is []"
| "rmatch (Opt k # is) (c # cs) =
     (if accepts k c
      then (case rmatch is cs of Some r \<Rightarrow> Some r | None \<Rightarrow> rmatch is (c # cs))
      else rmatch is (c # cs))"
| "rmatch (Star k # is) [] = rmatch is []"
| "rmatch (Star k # is) (c # cs) =
     (if accepts k c
      then (case rmatch (Star k # is) cs of Some r \<Rightarrow> Some r | None \<Rightarrow> rmatch is (c # cs))
      else rmatch is (c # cs))"
| "rmatch (LazyStar k # is) [] = rmatch is []"
| "rmatch (LazyStar k # is) (c # cs) =
     (case rmatch is (c # cs) of
        Some r \<Rightarrow> Some r
      | None \<Rightarrow> (if accepts k c then rmatch (LazyStar k # is) cs else None))"
| "rmatch (Mark # is) s =
     (case rmatch is s of None \<Rightarrow> None | Some (r, ms) \<Rightarrow> Some (r, s # ms))"

text \<open>
  All matches, left to right, each starting where the one before ended: the matched
  text and the marks. None of the three patterns matches the empty string, so the
  rules of Go for empty matches never apply; the test on the lengths only serves
  termination.
\<close>

fun findAll :: "item list \<Rightarrow> string \<Rightarrow> (string \<times> string list) list" where
  "findAll pat [] = []"
| "findAll pat (c # cs) =
     (case rmatch pat (c # cs) of
        None \<Rightarrow> findAll pat cs
      | Some (rest, ms) \<Rightarrow>
          (if length rest \<le> length cs
           then (take (Suc (length cs) - length rest) (c # cs), ms) # findAll pat rest
           else findAll pat cs))"

text \<open>\<open>re.FindAllString(s, -1)\<close>.\<close>

definition FindAllString :: "item list \<Rightarrow> string \<Rightarrow> string list" where
  "FindAllString pat s = map fst (findAll pat s)"

text \<open>
  \<open>re.FindAllStringSubmatch(s, -1)\<close> for a pattern with one group: each match is the
  list of the whole match and the text between the two marks.
\<close>

fun submatch :: "string \<times> string list \<Rightarrow> string list" where
  "submatch (whole, [a, b]) = [whole, take (length a - length b) a]"
| "submatch (whole, ms) = [whole]"

definition FindAllStringSubmatch :: "item list \<Rightarrow> string \<Rightarrow> string list list" where
  "FindAllStringSubmatch pat s = map submatch (findAll pat s)"

text \<open>\<open>re.ReplaceAllString(s, repl)\<close>, for a replacement without \<open>$\<close>.\<close>

fun ReplaceAllString :: "item list \<Rightarrow> string \<Rightarrow> string \<Rightarrow> string" where
  "ReplaceAllString pat [] repl = []"
| "ReplaceAllString pat (c # cs) repl =
     (case rmatch pat (c # cs) of
        None \<Rightarrow> c # ReplaceAllString pat cs repl
      | Some (rest, ms) \<Rightarrow>
          (if length rest \<le> length cs
           then repl @ ReplaceAllString pat rest repl
           else c # ReplaceAllString pat cs repl))"

definition lits :: "string \<Rightarrow> item list" where
  "lits s = map (\<lambda>c. Lit (Of [c])) s"

text \<open>\<open>\s\<close> is tab, line feed, form feed, carriage return and space.\<close>

definition ws :: string where
  "ws = [CHR 0x09, CHR 0x0A, CHR 0x0C, CHR 0x0D, CHR 0x20]"

text \<open>\<^verbatim>\<open>href\s*=\s*["'](https?://[^"]+)["']\<close>\<close>

definition hrefRegex :: "item list" where
  "hrefRegex =
     lits ''href'' @ [Star (Of ws)] @ lits ''='' @ [Star (Of ws), Lit (Of [CHR 0x22, CHR 0x27]), Mark]
     @ lits ''http'' @ [Opt (Of ''s'')] @ lits ''://'' @ [Lit (Not [CHR 0x22]), Star (Not [CHR 0x22]), Mark,
        Lit (Of [CHR 0x22, CHR 0x27])]"

text \<open>\<^verbatim>\<open>https?://[^\s"<>]*[^\s"<>,.?!;)]\<close>\<close>

definition urlRegex :: "item list" where
  "urlRegex =
     lits ''http'' @ [Opt (Of ''s'')] @ lits ''://''
     @ [Star (Not (ws @ [CHR 0x22] @ ''<>'')), Lit (Not (ws @ [CHR 0x22] @ ''<>,.?!;)''))]"

text \<open>\<^verbatim>\<open><.*?>\<close>: the dot matches every character but the line feed.\<close>

definition tagRegex :: "item list" where
  "tagRegex = [Lit (Of ''<''), LazyStar (Not [CHR 0x0A]), Lit (Of ''>'')]"

text \<open>\<open>strings.Fields\<close> and \<open>strings.Join\<close>, which the tests of the package use to compare bodies.\<close>

fun fieldsLoop :: "string \<Rightarrow> string \<Rightarrow> string list" where
  "fieldsLoop cur [] = (if cur = [] then [] else [cur])"
| "fieldsLoop cur (c # cs) =
     (let n = spaceLen spaceSeqs (c # cs)
      in if 0 < n then (if cur = [] then [] else [cur]) @ fieldsLoop [] (drop (n - 1) cs)
         else fieldsLoop (cur @ [c]) cs)"

definition Fields :: "string \<Rightarrow> string list" where
  "Fields s = fieldsLoop [] s"

fun Join :: "string list \<Rightarrow> string \<Rightarrow> string" where
  "Join [] sep = []"
| "Join [x] sep = x"
| "Join (x # y # zs) sep = x @ sep @ Join (y # zs) sep"

text \<open>The helper \<open>normalize\<close> of TestParse.\<close>

definition normalize :: "string \<Rightarrow> string" where
  "normalize s = Join (Fields s) '' ''"

subsection \<open>What the libraries hand to the package\<close>

text \<open>
  The decoders of golang.org/x/text (\<open>transform.Bytes(decoder, content)\<close>) and the
  Unicode part of \<open>strings.ToLower\<close> are parameters.
\<close>

record externals =
  decodeISO2022JP :: "string \<Rightarrow> error + string"
  decodeShiftJIS :: "string \<Rightarrow> error + string"
  decodeEUCJP :: "string \<Rightarrow> error + string"
  unicodeLower :: "string \<Rightarrow> string"

text \<open>
  \<open>mail.Address\<close>, and a header as the results of the accessors that \<open>Parse\<close> and
  \<open>extractBodyAndURLs\<close> call on it. An accessor returns a value and an error; where
  the source drops the error with \<open>_\<close> it keeps the value, so both are kept here.
\<close>

record address =
  Name :: string
  Address :: string

record header =
  hContentType :: "error + (string \<times> (string \<rightharpoonup> string))"  \<comment> \<open>\<open>Header.ContentType()\<close>\<close>
  hFrom :: "address list \<times> error option"                            \<comment> \<open>\<open>header.AddressList("From")\<close>\<close>
  hTo :: "address list \<times> error option"                              \<comment> \<open>\<open>header.AddressList("To")\<close>\<close>
  hSubject :: "string \<times> error option"                               \<comment> \<open>\<open>header.Subject()\<close>\<close>
  hMessageID :: "string \<times> error option"                             \<comment> \<open>\<open>header.MessageID()\<close>\<close>

text \<open>
  A part of a multipart body: the result of \<open>mime.ParseMediaType\<close> on its
  Content-Type field and the result of \<open>io.ReadAll(part)\<close>. \<open>mr.NextPart()\<close>
  yields a part or an error; the list of an entity holds what it yields before the first
  error that is \<open>io.EOF\<close>, which ends the loop. The list is finite: on the bytes of a
  body every call of NextPart consumes input or returns an error that wraps
  \<open>io.EOF\<close>.
\<close>

record part =
  partContentType :: "error + (string \<times> (string \<rightharpoonup> string))"
  partBody :: "string \<times> error option"

datatype part_event = NextPartErr error | NextPart part

text \<open>
  \<open>message.Entity\<close>: its header, the result of \<open>io.ReadAll(entity.Body)\<close> and the
  parts that a multipart reader finds in the body for the boundary of the header.
\<close>

record entity =
  Header :: header
  Body :: "string \<times> error option"
  Parts :: "part_event list"

text \<open>
  \<open>ParsedEmail\<close>; its fields \<open>Body\<close> and \<open>Header\<close> are named \<open>Body_text\<close> and
  \<open>Header_of\<close> here, the entity having fields of these names.
\<close>

record ParsedEmail =
  MessageID :: string
  From :: "address list"
  To :: "address list"
  Subject :: string
  Body_text :: string
  URLs :: "string list"
  Header_of :: header

text \<open>Reading a Go \<open>map[string]string\<close>: a missing key gives the empty string.\<close>

definition lookup :: "(string \<rightharpoonup> string) \<Rightarrow> string \<Rightarrow> string" where
  "lookup params k = (case params k of None \<Rightarrow> [] | Some v \<Rightarrow> v)"

subsection \<open>decodeCharset\<close>

text \<open>
  The switch chooses a decoder, returns the content at once for \<open>utf-8\<close>, or returns
  the error for any other label; then \<open>transform.Bytes\<close> runs the decoder.
\<close>

definition decodeCharset :: "externals \<Rightarrow> string \<Rightarrow> string \<Rightarrow> error + string" where
  "decodeCharset d content charset0 =
     (let charset = ToLower (unicodeLower d) charset0;
          decoder =
            (if charset = ''iso-2022-jp'' then Inr (Some (decodeISO2022JP d))
             else if charset = ''shift_jis'' \<or> charset = ''shift-jis'' then Inr (Some (decodeShiftJIS d))
             else if charset = ''euc-jp'' \<or> charset = ''euc_jp'' then Inr (Some (decodeEUCJP d))
             else if charset = ''utf-8'' then Inr None
             else Inl (UnsupportedCharset charset))
      in case decoder of
           Inl err \<Rightarrow> Inl err
         | Inr None \<Rightarrow> Inr content
         | Inr (Some dec) \<Rightarrow>
             (case dec content of
                Inl err \<Rightarrow> Inl (DecodeFailed charset err)
              | Inr decoded \<Rightarrow> Inr decoded))"

subsection \<open>extractBodyAndURLs\<close>

text \<open>
  Lines 106 to 115 and again 147 to 156: the content is decoded when the charset
  parameter is not empty, and kept as it is when \<open>decodeCharset\<close> returns an error.
\<close>

definition decodeContent :: "externals \<Rightarrow> string \<Rightarrow> (string \<rightharpoonup> string) \<Rightarrow> string" where
  "decodeContent d content params =
     (let charset = lookup params ''charset''
      in if charset \<noteq> []
         then (case decodeCharset d content charset of
                 Inr decodedContent \<Rightarrow> decodedContent
               | Inl decodeErr \<Rightarrow> content)
         else content)"

text \<open>
  Lines 120 to 133 and again 160 to 173, for a text/plain or text/html text: the first
  groups of the href matches, the tags replaced by a space when the type is text/html,
  then the URLs of the text that results. Returns that text and the URLs to append.
\<close>

definition harvestText :: "string \<Rightarrow> string \<Rightarrow> string \<times> string list" where
  "harvestText mediaType bodyText =
     (let hrefMatches = FindAllStringSubmatch hrefRegex bodyText;
          hrefs = map (\<lambda>m. m ! 1) (filter (\<lambda>m. 1 < length m) hrefMatches);
          bodyText' = (if mediaType = ''text/html''
                       then ReplaceAllString tagRegex bodyText '' '' else bodyText);
          foundUrls = FindAllString urlRegex bodyText'
      in (bodyText', hrefs @ foundUrls))"

text \<open>
  The loop of lines 82 to 138 over the parts, with the body builder and \<open>urls\<close> as
  accumulators. A part is skipped (\<open>continue\<close>) when NextPart, ParseMediaType or
  ReadAll returns an error; the log lines are not modelled.
\<close>

fun partsLoop :: "externals \<Rightarrow> part_event list \<Rightarrow> string \<Rightarrow> string list \<Rightarrow> string \<times> string list" where
  "partsLoop d [] bodyBuilder urls = (bodyBuilder, urls)"
| "partsLoop d (NextPartErr err # evs) bodyBuilder urls = partsLoop d evs bodyBuilder urls"
| "partsLoop d (NextPart p # evs) bodyBuilder urls =
     (case partContentType p of
        Inl err \<Rightarrow> partsLoop d evs bodyBuilder urls
      | Inr (partMediaType, partParams) \<Rightarrow>
          (case snd (partBody p) of
             Some err \<Rightarrow> partsLoop d evs bodyBuilder urls
           | None \<Rightarrow>
               (let partContent = decodeContent d (fst (partBody p)) partParams
                in if partMediaType = ''text/html'' \<or> partMediaType = ''text/plain''
                   then (let (partBodyText, found) = harvestText partMediaType partContent
                         in partsLoop d evs (bodyBuilder @ partBodyText @ [CHR 0x0A]) (urls @ found))
                   else partsLoop d evs bodyBuilder urls)))"

text \<open>
  Lines 63 to 67: the media type and the parameters, text/plain without parameters when
  the Content-Type field cannot be parsed. Then lines 69 to 176: the body builder and
  \<open>urls\<close> as they are before the URLs are made unique, or the error of line 143.
\<close>

definition contentTypeOrDefault :: "header \<Rightarrow> string \<times> (string \<rightharpoonup> string)" where
  "contentTypeOrDefault h =
     (case hContentType h of
        Inl err \<Rightarrow> (''text/plain'', Map.empty)
      | Inr mp \<Rightarrow> mp)"

definition collect :: "externals \<Rightarrow> entity \<Rightarrow> error + (string \<times> string list)" where
  "collect d entity =
     (let (mediaType, params) = contentTypeOrDefault (Header entity)
      in if prefix ''multipart/'' mediaType
         then (let boundary = lookup params ''boundary''
               in if boundary = []
                  then Inr (fst (Body entity), [])
                  else Inr (partsLoop d (Parts entity) [] []))
         else if mediaType = ''text/plain'' \<or> mediaType = ''text/html''
         then (case snd (Body entity) of
                 Some err \<Rightarrow> Inl err
               | None \<Rightarrow> Inr (harvestText mediaType (decodeContent d (fst (Body entity)) params)))
         else Inr ([], []))"

text \<open>
  Lines 178 to 186: \<open>uniqueUrls\<close> is a \<open>map[string]bool\<close>, read as false at a missing
  key; the state of the loop is that map and \<open>resultUrls\<close>.
\<close>

fun uniqueLoop :: "(string \<Rightarrow> bool) \<times> string list \<Rightarrow> string list \<Rightarrow> (string \<Rightarrow> bool) \<times> string list" where
  "uniqueLoop st [] = st"
| "uniqueLoop (uniqueUrls, resultUrls) (u0 # us) =
     (let u = TrimRight u0 ''.?!,;)''
      in if \<not> uniqueUrls u
         then uniqueLoop (uniqueUrls(u := True), resultUrls @ [u]) us
         else uniqueLoop (uniqueUrls, resultUrls) us)"

definition uniqueTrimmed :: "string list \<Rightarrow> string list" where
  "uniqueTrimmed urls = snd (uniqueLoop (\<lambda>u. False, []) urls)"

definition extractBodyAndURLs :: "externals \<Rightarrow> entity \<Rightarrow> error + (string \<times> string list)" where
  "extractBodyAndURLs d entity =
     (case collect d entity of
        Inl err \<Rightarrow> Inl err
      | Inr (bodyBuilder, urls) \<Rightarrow> Inr (TrimSpace bodyBuilder, uniqueTrimmed urls))"

subsection \<open>Parse\<close>

text \<open>
  The reader given to \<open>Parse\<close> is represented by what \<open>message.Read\<close> returns on it:
  an error, or the entity. \<open>mail.NewReader\<close> reads nothing of the body.
\<close>

definition Parse :: "externals \<Rightarrow> error + entity \<Rightarrow> error + ParsedEmail" where
  "Parse d r =
     (case r of
        Inl err \<Rightarrow> Inl (ReadEntityFailed err)
      | Inr entity \<Rightarrow>
          (let header = Header entity;
               from = fst (hFrom header);
               to = fst (hTo header);
               subject = fst (hSubject header);
               messageID = fst (hMessageID header)
           in case extractBodyAndURLs d entity of
                Inl err \<Rightarrow> Inl err
              | Inr (body, urls) \<Rightarrow>
                  Inr \<lparr>MessageID = Trim messageID ''<> '', From = from, To = to,
                       Subject = subject, Body_text = body, URLs = urls, Header_of = header\<rparr>))"

subsection \<open>The loop of main over the messages of an mbox file\<close>

text \<open>
  Lines 66 to 97 of main. \<open>mboxReader.NextMessage()\<close> yields a message or an error;
  the list holds what it yields before \<open>io.EOF\<close>, on a file that can be read to its
  end. A message is represented by what \<open>message.Read\<close> returns on it. \<open>emailAnalyzer.Analyze\<close> (the call of the language model) and
  \<open>Address.String\<close> are parameters; \<open>log.Printf\<close> appends to the log.
\<close>

datatype msg_event = NextMessageErr error | NextMessage "error + entity"

datatype logline =
    CouldNotReadMessage error       \<comment> \<open>"Warning: Could not read message: %v"\<close>
  | FailedToParseEmail error        \<comment> \<open>"Warning: Failed to parse email: %v"\<close>
  | FailedToAnalyzeEmail string error  \<comment> \<open>"Warning: Failed to analyze email (Message-ID: %s): %v"\<close>

record 'j AnalysisResult =
  res_MessageID :: string
  res_Subject :: string
  res_From :: "string list"
  res_To :: "string list"
  res_Judgment :: 'j

definition convertAddresses :: "(address \<Rightarrow> string) \<Rightarrow> address list \<Rightarrow> string list" where
  "convertAddresses addrString addresses = map addrString addresses"

fun messagesLoop ::
  "externals \<Rightarrow> (ParsedEmail \<Rightarrow> error + 'j) \<Rightarrow> (address \<Rightarrow> string) \<Rightarrow> msg_event list
     \<Rightarrow> 'j AnalysisResult list \<times> logline list \<Rightarrow> 'j AnalysisResult list \<times> logline list" where
  "messagesLoop d Analyze addrString [] st = st"
| "messagesLoop d Analyze addrString (NextMessageErr err # evs) (results, lg) =
     messagesLoop d Analyze addrString evs (results, lg @ [CouldNotReadMessage err])"
| "messagesLoop d Analyze addrString (NextMessage rawMessage # evs) (results, lg) =
     (case Parse d rawMessage of
        Inl err \<Rightarrow> messagesLoop d Analyze addrString evs (results, lg @ [FailedToParseEmail err])
      | Inr parsedEmail \<Rightarrow>
          (case Analyze parsedEmail of
             Inl err \<Rightarrow>
               messagesLoop d Analyze addrString evs
                 (results, lg @ [FailedToAnalyzeEmail (MessageID parsedEmail) err])
           | Inr judgment \<Rightarrow>
               messagesLoop d Analyze addrString evs
                 (results @ [\<lparr>res_MessageID = MessageID parsedEmail,
                              res_Subject = Subject parsedEmail,
                              res_From = convertAddresses addrString (From parsedEmail),
                              res_To = convertAddresses addrString (To parsedEmail),
                              res_Judgment = judgment\<rparr>], lg)))"

subsection \<open>Concrete inputs\<close>

text \<open>
  Decoders that reject every input, and a message that has a Content-Type field with
  the given media type and parameters, the given body, and no other header field.
\<close>

definition rejectingDecoders :: externals where
  "rejectingDecoders =
     \<lparr>decodeISO2022JP = (\<lambda>b. Inl (External ''invalid input'')),
      decodeShiftJIS = (\<lambda>b. Inl (External ''invalid input'')),
      decodeEUCJP = (\<lambda>b. Inl (External ''invalid input'')),
      unicodeLower = (\<lambda>s. s)\<rparr>"

definition bareHeader :: "string \<Rightarrow> (string \<rightharpoonup> string) \<Rightarrow> header" where
  "bareHeader mediaType params =
     \<lparr>hContentType = Inr (mediaType, params), hFrom = ([], None), hTo = ([], None),
      hSubject = ([], None), hMessageID = ([], None)\<rparr>"

definition textMessage :: "string \<Rightarrow> (string \<rightharpoonup> string) \<Rightarrow> string \<Rightarrow> entity" where
  "textMessage mediaType params content =
     \<lparr>Header = bareHeader mediaType params, Body = (content, None), Parts = []\<rparr>"

definition textPart :: "string \<Rightarrow> (string \<rightharpoonup> string) \<Rightarrow> string \<Rightarrow> part_event" where
  "textPart mediaType params content =
     NextPart \<lparr>partContentType = Inr (mediaType, params), partBody = (content, None)\<rparr>"

text \<open>
  A multipart/mixed message with one part, a multipart/alternative with a text/plain
  and a text/html leaf: the multipart reader of the outer boundary yields that part with
  the inner multipart, still framed, as its content.
\<close>

definition innerAlternative :: string where
  "innerAlternative =
     ''--inner'' @ [CHR 0x0D, CHR 0x0A] @ ''Content-Type: text/plain'' @ [CHR 0x0D, CHR 0x0A, CHR 0x0D, CHR 0x0A]
     @ ''Plain text part. URL: http://plain.com'' @ [CHR 0x0D, CHR 0x0A]
     @ ''--inner'' @ [CHR 0x0D, CHR 0x0A] @ ''Content-Type: text/html'' @ [CHR 0x0D, CHR 0x0A, CHR 0x0D, CHR 0x0A]
     @ ''<p>HTML part. URL: <a href='' @ [CHR 0x22] @ ''http://html.com'' @ [CHR 0x22] @ ''>html</a></p>''
     @ [CHR 0x0D, CHR 0x0A] @ ''--inner--'' @ [CHR 0x0D, CHR 0x0A]"

definition nestedMessage :: entity where
  "nestedMessage =
     \<lparr>Header = bareHeader ''multipart/mixed'' [''boundary'' \<mapsto> ''outer''],
      Body = (''--outer'' @ [CHR 0x0D, CHR 0x0A]
                @ ''Content-Type: multipart/alternative; boundary=inner'' @ [CHR 0x0D, CHR 0x0A, CHR 0x0D, CHR 0x0A]
                @ innerAlternative @ [CHR 0x0D, CHR 0x0A] @ ''--outer--'' @ [CHR 0x0D, CHR 0x0A], None),
      Parts = [NextPart \<lparr>partContentType = Inr (''multipart/alternative'', [''boundary'' \<mapsto> ''inner'']),
                         partBody = (innerAlternative, None)\<rparr>]\<rparr>"

text \<open>
  A message with a sender, a recipient, a subject and a message identifier, and a
  multipart/alternative message with three parts: text/plain, a nested
  multipart/alternative, text/html.
\<close>

definition mailMessage :: "string \<Rightarrow> string \<Rightarrow> string \<Rightarrow> entity" where
  "mailMessage messageID subject content =
     \<lparr>Header = \<lparr>hContentType = Inr (''text/plain'', Map.empty),
                 hFrom = ([\<lparr>Name = [], Address = ''sender@example.com''\<rparr>], None),
                 hTo = ([\<lparr>Name = [], Address = ''recipient@example.com''\<rparr>], None),
                 hSubject = (subject, None), hMessageID = (messageID, None)\<rparr>,
      Body = (content, None), Parts = []\<rparr>"

definition threePartMessage :: entity where
  "threePartMessage =
     \<lparr>Header = bareHeader ''multipart/alternative'' [''boundary'' \<mapsto> ''boundary''],
      Body = ([], None),
      Parts = [textPart ''text/plain'' [''charset'' \<mapsto> ''utf-8''] ''Plain text part. URL: http://plain.com'',
               NextPart \<lparr>partContentType = Inr (''multipart/alternative'', [''boundary'' \<mapsto> ''inner'']),
                         partBody = (innerAlternative, None)\<rparr>,
               textPart ''text/html'' [''charset'' \<mapsto> ''utf-8'']
                 (''<p>HTML part. URL: <a href='' @ [CHR 0x22] @ ''http://html.com/'' @ [CHR 0x22] @ ''>html</a></p>'')]\<rparr>"

subsection \<open>Notions used to state the properties\<close>

text \<open>The position of the first occurrence of \<open>x\<close> in \<open>xs\<close> (the length when there is none).\<close>

definition firstIndex :: "'a \<Rightarrow> 'a list \<Rightarrow> nat" where
  "firstIndex x xs = length (takeWhile (\<lambda>y. y \<noteq> x) xs)"

text \<open>
  The direct children of a multipart body that the loop reads as text: media type,
  parameters and content of each part that NextPart yields without error, whose
  Content-Type parses, whose content is read without error and whose media type is
  text/html or text/plain.
\<close>

fun textLeaves :: "part_event list \<Rightarrow> (string \<times> (string \<rightharpoonup> string) \<times> string) list" where
  "textLeaves [] = []"
| "textLeaves (NextPartErr err # evs) = textLeaves evs"
| "textLeaves (NextPart p # evs) =
     (case (partContentType p, snd (partBody p)) of
        (Inr (mt, ps), None) \<Rightarrow>
          (if mt = ''text/html'' \<or> mt = ''text/plain''
           then (mt, ps, fst (partBody p)) # textLeaves evs
           else textLeaves evs)
      | _ \<Rightarrow> textLeaves evs)"

text \<open>What one such leaf adds to the body builder, and what it adds to \<open>urls\<close>.\<close>

definition leafBody :: "externals \<Rightarrow> string \<times> (string \<rightharpoonup> string) \<times> string \<Rightarrow> string" where
  "leafBody d l = (case l of (mt, ps, content) \<Rightarrow> fst (harvestText mt (decodeContent d content ps)) @ [CHR 0x0A])"

definition leafUrls :: "externals \<Rightarrow> string \<times> (string \<rightharpoonup> string) \<times> string \<Rightarrow> string list" where
  "leafUrls d l = (case l of (mt, ps, content) \<Rightarrow> snd (harvestText mt (decodeContent d content ps)))"

text \<open>
  Running the harvest again on a list of URLs: the list, one URL on each line, as the
  body of a message of the given media type.
\<close>

definition harvestAgain :: "externals \<Rightarrow> string \<Rightarrow> string list \<Rightarrow> error + string list" where
  "harvestAgain d mediaType us =
     (case extractBodyAndURLs d (textMessage mediaType Map.empty (Join us [CHR 0x0A])) of
        Inl err \<Rightarrow> Inl err
      | Inr (body, urls) \<Rightarrow> Inr urls)"

section \<open>Properties\<close>

subsection \<open>The loop that trims the URLs and makes them unique\<close>

lemma uniqueLoop_append: "uniqueLoop st (us @ vs) = uniqueLoop (uniqueLoop st us) vs"
  by (induction st us rule: uniqueLoop.induct) (simp_all add: Let_def)

lemma TrimRight_idem: "TrimRight (TrimRight s cs) cs = TrimRight s cs"
  unfolding TrimRight_def
  by (simp add: dropWhile_idem)

lemma TrimRight_last: "TrimRight s cs \<noteq> [] \<Longrightarrow> last (TrimRight s cs) \<notin> set cs"
  unfolding TrimRight_def
  using hd_dropWhile[of "\<lambda>c. c \<in> set cs" "rev s"] by (simp add: last_rev)

lemma firstIndex_append: "x \<in> set xs \<Longrightarrow> firstIndex x (xs @ ys) = firstIndex x xs"
  by (simp add: firstIndex_def takeWhile_append1)

lemma firstIndex_less: "x \<in> set xs \<Longrightarrow> firstIndex x xs < length xs"
  unfolding firstIndex_def by (induction xs) auto

lemma firstIndex_new: "x \<notin> set xs \<Longrightarrow> firstIndex x (xs @ [x]) = length xs"
  unfolding firstIndex_def by (induction xs) auto

lemma firstIndex_sorted_old:
  assumes "set res = set ts" "sorted_wrt (<) (map (\<lambda>x. firstIndex x ts) res)"
  shows "sorted_wrt (<) (map (\<lambda>x. firstIndex x (ts @ [t])) res)"
proof -
  have h: "map (\<lambda>x. firstIndex x (ts @ [t])) res = map (\<lambda>x. firstIndex x ts) res"
    by (rule map_cong[OF refl]) (simp add: assms(1) firstIndex_append)
  show ?thesis unfolding h by (rule assms(2))
qed

lemma firstIndex_sorted_new:
  assumes "set res = set ts" "sorted_wrt (<) (map (\<lambda>x. firstIndex x ts) res)" "t \<notin> set res"
  shows "sorted_wrt (<) (map (\<lambda>x. firstIndex x (ts @ [t])) (res @ [t]))"
proof -
  have a: "sorted_wrt (<) (map (\<lambda>x. firstIndex x (ts @ [t])) res)"
    by (rule firstIndex_sorted_old[OF assms(1,2)])
  have b: "firstIndex t (ts @ [t]) = length ts"
    using assms(1,3) by (simp add: firstIndex_new)
  have c: "\<And>x. x \<in> set res \<Longrightarrow> firstIndex x (ts @ [t]) < length ts"
    using assms(1) by (simp add: firstIndex_append firstIndex_less)
  show ?thesis using a b c by (simp add: sorted_wrt_append)
qed

lemma uniqueLoop_snoc:
  "uniqueLoop (\<lambda>u. False, []) (us @ [u]) =
     (let (seen, res) = uniqueLoop (\<lambda>u. False, []) us; t = TrimRight u ''.?!,;)''
      in if seen t then (seen, res) else (seen(t := True), res @ [t]))"
  by (simp add: uniqueLoop_append Let_def split: prod.splits)

lemma uniqueLoop_inv:
  "uniqueLoop (\<lambda>u. False, []) us = (seen, res) \<Longrightarrow>
     (\<forall>x. seen x \<longleftrightarrow> x \<in> set res) \<and> distinct res \<and> set res = set (map (\<lambda>u. TrimRight u ''.?!,;)'') us)
     \<and> sorted_wrt (<) (map (\<lambda>x. firstIndex x (map (\<lambda>u. TrimRight u ''.?!,;)'') us)) res)"
proof (induction us arbitrary: seen res rule: rev_induct)
  case Nil
  then show ?case by auto
next
  case (snoc u us)
  obtain seen0 res0 where st: "uniqueLoop (\<lambda>u. False, []) us = (seen0, res0)"
    by (cases "uniqueLoop (\<lambda>u. False, []) us") auto
  define t where "t = TrimRight u ''.?!,;)''"
  define ts where "ts = map (\<lambda>u. TrimRight u ''.?!,;)'') us"
  have ts': "map (\<lambda>u. TrimRight u ''.?!,;)'') (us @ [u]) = ts @ [t]"
    by (simp add: t_def ts_def)
  from snoc.IH[OF st] have seen0: "\<And>x. seen0 x \<longleftrightarrow> x \<in> set res0" and d0: "distinct res0"
    and set0: "set res0 = set ts" and s0: "sorted_wrt (<) (map (\<lambda>x. firstIndex x ts) res0)"
    unfolding ts_def by blast+
  show ?case unfolding ts'
  proof (cases "seen0 t")
    case True
    with snoc.prems st have eq: "seen = seen0" "res = res0"
      by (simp_all add: uniqueLoop_snoc t_def Let_def)
    have mem: "t \<in> set res0" using True seen0 by simp
    have "set res = set (ts @ [t])" using mem set0 eq by auto
    moreover have "sorted_wrt (<) (map (\<lambda>x. firstIndex x (ts @ [t])) res)"
      unfolding eq by (rule firstIndex_sorted_old[OF set0 s0])
    ultimately show "(\<forall>x. seen x \<longleftrightarrow> x \<in> set res) \<and> distinct res \<and> set res = set (ts @ [t])
     \<and> sorted_wrt (<) (map (\<lambda>x. firstIndex x (ts @ [t])) res)" using eq seen0 d0 by blast
  next
    case False
    with snoc.prems st have eq: "seen = seen0(t := True)" "res = res0 @ [t]"
      by (simp_all add: uniqueLoop_snoc t_def Let_def)
    have nmem: "t \<notin> set res0" using False seen0 by simp
    have "sorted_wrt (<) (map (\<lambda>x. firstIndex x (ts @ [t])) res)"
      unfolding eq by (rule firstIndex_sorted_new[OF set0 s0 nmem])
    moreover have "set res = set (ts @ [t])" using set0 eq by auto
    moreover have "distinct res" using d0 nmem eq by simp
    moreover have "\<forall>x. seen x \<longleftrightarrow> x \<in> set res" using seen0 eq by auto
    ultimately show "(\<forall>x. seen x \<longleftrightarrow> x \<in> set res) \<and> distinct res \<and> set res = set (ts @ [t])
     \<and> sorted_wrt (<) (map (\<lambda>x. firstIndex x (ts @ [t])) res)" by blast
  qed
qed

lemma uniqueTrimmed_props:
  "distinct (uniqueTrimmed urls) \<and>
   set (uniqueTrimmed urls) = set (map (\<lambda>u. TrimRight u ''.?!,;)'') urls) \<and>
   sorted_wrt (<) (map (\<lambda>x. firstIndex x (map (\<lambda>u. TrimRight u ''.?!,;)'') urls)) (uniqueTrimmed urls))"
proof -
  obtain seen res where st: "uniqueLoop (\<lambda>u. False, []) urls = (seen, res)"
    by (cases "uniqueLoop (\<lambda>u. False, []) urls") auto
  from uniqueLoop_inv[OF st] show ?thesis by (simp add: uniqueTrimmed_def st)
qed

lemma uniqueTrimmed_trimmed:
  "u \<in> set (uniqueTrimmed urls) \<Longrightarrow> TrimRight u ''.?!,;)'' = u"
  using uniqueTrimmed_props[of urls] by (auto simp: TrimRight_idem)

lemma uniqueLoop_fixed:
  "\<lbrakk>\<forall>x. seen x \<longleftrightarrow> x \<in> set res; distinct (res @ us); \<forall>u\<in>set us. TrimRight u ''.?!,;)'' = u\<rbrakk>
   \<Longrightarrow> snd (uniqueLoop (seen, res) us) = res @ us"
proof (induction us arbitrary: seen res)
  case Nil
  then show ?case by simp
next
  case (Cons u us)
  have t: "TrimRight u ''.?!,;)'' = u" using Cons.prems(3) by simp
  have ns: "\<not> seen u" using Cons.prems(1,2) by auto
  have "snd (uniqueLoop (seen(u := True), res @ [u]) us) = (res @ [u]) @ us"
  proof (rule Cons.IH)
    show "\<forall>x. (seen(u := True)) x \<longleftrightarrow> x \<in> set (res @ [u])" using Cons.prems(1) by auto
    show "distinct ((res @ [u]) @ us)" using Cons.prems(2) by auto
    show "\<forall>u\<in>set us. TrimRight u ''.?!,;)'' = u" using Cons.prems(3) by simp
  qed
  then show ?case using t ns by (simp add: Let_def)
qed

lemma uniqueTrimmed_fixed:
  "\<lbrakk>distinct us; \<forall>u\<in>set us. TrimRight u ''.?!,;)'' = u\<rbrakk> \<Longrightarrow> uniqueTrimmed us = us"
  using uniqueLoop_fixed[of "\<lambda>u. False" "[]" us] by (simp add: uniqueTrimmed_def)

lemma uniqueTrimmed_Nil: "uniqueTrimmed [] = []"
  by (simp add: uniqueTrimmed_def)

lemma extract_Inr:
  "extractBodyAndURLs d entity = Inr (body, resultUrls) \<Longrightarrow>
     \<exists>bodyBuilder urls. collect d entity = Inr (bodyBuilder, urls) \<and> body = TrimSpace bodyBuilder
        \<and> resultUrls = uniqueTrimmed urls"
  by (auto simp: extractBodyAndURLs_def split: sum.splits)

subsection \<open>The patterns consume input\<close>

text \<open>A match of one of the three patterns is never empty, so \<open>findAll\<close> and
  \<open>ReplaceAllString\<close> always take the branch that continues after the match.\<close>

lemma rmatch_length: "rmatch pat s = Some (r, ms) \<Longrightarrow> length r \<le> length s"
proof (induction pat s arbitrary: r ms rule: rmatch.induct)
  case (1 s)
  then show ?case by simp
next
  case (2 k "is")
  then show ?case by simp
next
  case (3 k "is" c cs)
  then show ?case by (fastforce split: if_splits)
next
  case (4 k "is")
  then show ?case by simp
next
  case (5 k "is" c cs)
  then show ?case by (fastforce split: if_splits option.splits)
next
  case (6 k "is")
  then show ?case by simp
next
  case (7 k "is" c cs)
  then show ?case by (fastforce split: if_splits option.splits)
next
  case (8 k "is")
  then show ?case by simp
next
  case (9 k "is" c cs)
  then show ?case by (fastforce split: if_splits option.splits)
next
  case (10 "is" s)
  then show ?case by (fastforce split: option.splits)
qed

lemma rmatch_Lit_shorter: "rmatch (Lit k # pat) (c # cs) = Some (r, ms) \<Longrightarrow> length r \<le> length cs"
  by (auto split: if_splits dest: rmatch_length)

lemma patterns_consume:
  "rmatch hrefRegex (c # cs) = Some (r, ms) \<Longrightarrow> length r \<le> length cs"
  "rmatch urlRegex (c # cs) = Some (r, ms) \<Longrightarrow> length r \<le> length cs"
  "rmatch tagRegex (c # cs) = Some (r, ms) \<Longrightarrow> length r \<le> length cs"
  unfolding hrefRegex_def urlRegex_def tagRegex_def lits_def
  by (simp_all only: list.map append_Cons rmatch_Lit_shorter)

subsection \<open>The walk over a message\<close>


lemma partsLoop_acc:
  "partsLoop d evs bodyBuilder urls =
     (bodyBuilder @ fst (partsLoop d evs [] []), urls @ snd (partsLoop d evs [] []))"
proof (induction evs arbitrary: bodyBuilder urls)
  case Nil
  show ?case by simp
next
  case (Cons ev evs)
  show ?case
  proof (cases ev)
    case (NextPartErr err)
    then show ?thesis using Cons.IH[of bodyBuilder urls] by simp
  next
    case (NextPart p)
    show ?thesis
    proof (cases "partContentType p")
      case (Inl err)
      then show ?thesis using NextPart Cons.IH[of bodyBuilder urls] by simp
    next
      case (Inr mp)
      obtain mt ps where mp: "mp = (mt, ps)" by (cases mp) auto
      show ?thesis
      proof (cases "snd (partBody p)")
        case (Some err)
        then show ?thesis using NextPart Inr mp Cons.IH[of bodyBuilder urls] by simp
      next
        case None
        show ?thesis
        proof (cases "mt = ''text/html'' \<or> mt = ''text/plain''")
          case False
          then show ?thesis using NextPart Inr mp None Cons.IH[of bodyBuilder urls] by simp
        next
          case True
          obtain t f where hv: "harvestText mt (decodeContent d (fst (partBody p)) ps) = (t, f)"
            by (cases "harvestText mt (decodeContent d (fst (partBody p)) ps)") auto
          have a: "partsLoop d (ev # evs) bodyBuilder urls
                     = partsLoop d evs (bodyBuilder @ t @ [CHR 0x0A]) (urls @ f)"
            using NextPart Inr mp None True hv by (simp add: Let_def)
          have b: "partsLoop d (ev # evs) [] [] = partsLoop d evs (t @ [CHR 0x0A]) f"
            using NextPart Inr mp None True hv by (simp add: Let_def)
          show ?thesis
            unfolding a b
            using Cons.IH[of "bodyBuilder @ t @ [CHR 0x0A]" "urls @ f"] Cons.IH[of "t @ [CHR 0x0A]" f]
            by simp
        qed
      qed
    qed
  qed
qed

lemma partsLoop_leaves:
  "partsLoop d evs [] [] =
     (concat (map (leafBody d) (textLeaves evs)), concat (map (leafUrls d) (textLeaves evs)))"
proof (induction evs)
  case Nil
  show ?case by simp
next
  case (Cons ev evs)
  show ?case
  proof (cases ev)
    case (NextPartErr err)
    then show ?thesis using Cons.IH by simp
  next
    case (NextPart p)
    show ?thesis
    proof (cases "partContentType p")
      case (Inl err)
      then show ?thesis using NextPart Cons.IH by simp
    next
      case (Inr mp)
      obtain mt ps where mp: "mp = (mt, ps)" by (cases mp) auto
      show ?thesis
      proof (cases "snd (partBody p)")
        case (Some err)
        then show ?thesis using NextPart Inr mp Cons.IH by simp
      next
        case None
        show ?thesis
        proof (cases "mt = ''text/html'' \<or> mt = ''text/plain''")
          case False
          then show ?thesis using NextPart Inr mp None Cons.IH by simp
        next
          case True
          obtain t f where hv: "harvestText mt (decodeContent d (fst (partBody p)) ps) = (t, f)"
            by (cases "harvestText mt (decodeContent d (fst (partBody p)) ps)") auto
          have b: "partsLoop d (ev # evs) [] [] = partsLoop d evs (t @ [CHR 0x0A]) f"
            using NextPart Inr mp None True hv by (simp add: Let_def)
          have l: "textLeaves (ev # evs) = (mt, ps, fst (partBody p)) # textLeaves evs"
            using NextPart Inr mp None True by simp
          show ?thesis
            unfolding b l using partsLoop_acc[of d evs "t @ [CHR 0x0A]" f] Cons.IH hv
            by (simp add: leafBody_def leafUrls_def)
        qed
      qed
    qed
  qed
qed

lemma collect_multipart:
  assumes "hContentType (Header entity) = Inr (mediaType, params)"
    and "prefix ''multipart/'' mediaType"
  shows "collect d entity =
           (if lookup params ''boundary'' = [] then Inr (fst (Body entity), [])
            else Inr (partsLoop d (Parts entity) [] []))"
  using assms by (simp add: collect_def contentTypeOrDefault_def Let_def)





subsection \<open>Lower case and decodeCharset\<close>

lemma asciiLower_ascii: "of_char (asciiLower c) < (128::nat) \<Longrightarrow> of_char c < (128::nat)"
  by (simp add: asciiLower_def split: if_splits)

lemma isASCII_asciiLower: "isASCII (map asciiLower s) \<Longrightarrow> isASCII s"
  by (induction s) (auto simp: isASCII_def dest: asciiLower_ascii)

lemma ToLower_utf8:
  assumes "map asciiLower charset = ''utf-8''"
  shows "ToLower f charset = ''utf-8''"
proof -
  have "isASCII (map asciiLower charset)" unfolding assms by (simp add: isASCII_def)
  then have "isASCII charset" by (rule isASCII_asciiLower)
  then show ?thesis using assms by (simp add: ToLower_def)
qed

lemma decodeCharset_utf8:
  "map asciiLower charset = ''utf-8'' \<Longrightarrow> decodeCharset d content charset = Inr content"
  by (simp add: decodeCharset_def ToLower_utf8)




subsection \<open>The loop over the messages\<close>

lemma messagesLoop_acc:
  "messagesLoop d Analyze addrString evs (results, lg) =
     (results @ fst (messagesLoop d Analyze addrString evs ([], [])),
      lg @ snd (messagesLoop d Analyze addrString evs ([], [])))"
proof (induction evs arbitrary: results lg)
  case Nil
  show ?case by simp
next
  case (Cons ev evs)
  note IH = Cons.IH
  show ?case
  proof (cases ev)
    case (NextMessageErr err)
    show ?thesis unfolding NextMessageErr
      using IH[of results "lg @ [CouldNotReadMessage err]"] IH[of "[]" "[CouldNotReadMessage err]"]
      by simp
  next
    case (NextMessage rawMessage)
    show ?thesis
    proof (cases "Parse d rawMessage")
      case (Inl err)
      show ?thesis unfolding NextMessage
        using Inl IH[of results "lg @ [FailedToParseEmail err]"] IH[of "[]" "[FailedToParseEmail err]"]
        by simp
    next
      case (Inr parsedEmail)
      note ok = Inr
      show ?thesis
      proof (cases "Analyze parsedEmail")
        case (Inl err)
        show ?thesis unfolding NextMessage
          using ok Inl IH[of results "lg @ [FailedToAnalyzeEmail (MessageID parsedEmail) err]"]
            IH[of "[]" "[FailedToAnalyzeEmail (MessageID parsedEmail) err]"]
          by simp
      next
        case (Inr jm)
        let ?r = "\<lparr>res_MessageID = MessageID parsedEmail, res_Subject = Subject parsedEmail,
                    res_From = convertAddresses addrString (From parsedEmail),
                    res_To = convertAddresses addrString (To parsedEmail),
                    res_Judgment = jm\<rparr>"
        show ?thesis unfolding NextMessage
          using ok Inr IH[of "results @ [?r]" lg] IH[of "[?r]" "[]"]
          by simp
      qed
    qed
  qed
qed

lemma messagesLoop_append:
  "messagesLoop d Analyze addrString (evs1 @ evs2) st =
     messagesLoop d Analyze addrString evs2 (messagesLoop d Analyze addrString evs1 st)"
proof (induction evs1 arbitrary: st)
  case Nil
  show ?case by simp
next
  case (Cons ev evs1)
  obtain results lg where st: "st = (results, lg)" by (cases st) auto
  show ?case unfolding st
    by (cases ev) (simp_all add: Cons.IH split: sum.splits)
qed

text \<open>The definitions to unfold when a concrete message is evaluated.\<close>

lemmas eval_defs = extractBodyAndURLs_def collect_def contentTypeOrDefault_def textMessage_def bareHeader_def
  harvestText_def FindAllString_def FindAllStringSubmatch_def hrefRegex_def urlRegex_def tagRegex_def lits_def
  ws_def uniqueTrimmed_def TrimRight_def TrimSpace_def spaceSeqs_def spaceLen_def lookup_def decodeContent_def
  Let_def

section \<open>The claims\<close>

subsection \<open>C1: multipart messages\<close>

text \<open>
  C1, as stated, asks that a multipart/alternative nested in a multipart/mixed has its
  two leaves read: the body has the text of both and the URL list is
  \<open>http://plain.com\<close>, \<open>http://html.com\<close>. The loop of lines 82 to 138 looks at the
  media type of each part once and does not descend: for that message the body and the
  URL list are both empty.
\<close>

theorem nested_multipart_counterexample:
  "extractBodyAndURLs rejectingDecoders nestedMessage = Inr ([], [])
   \<and> [] \<noteq> [''http://plain.com'', ''http://html.com'']"
  by (simp add: nestedMessage_def eval_defs)

text \<open>
  C1, amended. For a multipart message with a boundary the body and the URLs come from
  the direct children of type text/plain or text/html only, in their order: the body is
  the trimmed concatenation of what each such child adds (its text and a line feed), the
  URL list is the trimmed, unique list of what each adds. A child of any other media
  type, a nested multipart among them, a child whose Content-Type does not parse and a
  child that cannot be read add nothing.
\<close>

theorem multipart_direct_text_children:
  assumes "hContentType (Header entity) = Inr (mediaType, params)"
    and "prefix ''multipart/'' mediaType"
    and "lookup params ''boundary'' \<noteq> []"
  shows "extractBodyAndURLs d entity =
           Inr (TrimSpace (concat (map (leafBody d) (textLeaves (Parts entity)))),
                uniqueTrimmed (concat (map (leafUrls d) (textLeaves (Parts entity)))))"
  using assms collect_multipart[OF assms(1,2), of d] 
  by (simp add: extractBodyAndURLs_def partsLoop_leaves)

theorem multipart_direct_text_children_witness:
  "hContentType (Header threePartMessage) = Inr (''multipart/alternative'', [''boundary'' \<mapsto> ''boundary''])
   \<and> prefix ''multipart/'' ''multipart/alternative''
   \<and> lookup [''boundary'' \<mapsto> ''boundary''] ''boundary'' \<noteq> []
   \<and> extractBodyAndURLs rejectingDecoders threePartMessage
       = Inr (''Plain text part. URL: http://plain.com'' @ [CHR 0x0A] @ '' HTML part. URL:  html'',
              [''http://plain.com'', ''http://html.com/''])"
proof -
  have h1: "hContentType (Header threePartMessage)
              = Inr (''multipart/alternative'', [''boundary'' \<mapsto> ''boundary''])"
    by (simp add: threePartMessage_def bareHeader_def)
  have h2: "prefix ''multipart/'' ''multipart/alternative''" by simp
  have h3: "lookup [''boundary'' \<mapsto> ''boundary''] ''boundary'' \<noteq> []" by (simp add: lookup_def)
  have l: "textLeaves (Parts threePartMessage) =
             [(''text/plain'', [''charset'' \<mapsto> ''utf-8''], ''Plain text part. URL: http://plain.com''),
              (''text/html'', [''charset'' \<mapsto> ''utf-8''],
               ''<p>HTML part. URL: <a href='' @ [CHR 0x22] @ ''http://html.com/'' @ [CHR 0x22] @ ''>html</a></p>'')]"
    by (simp add: threePartMessage_def textPart_def)
  have u: "decodeCharset rejectingDecoders c ''utf-8'' = Inr c" for c
    by (rule decodeCharset_utf8) code_simp
  have r1: "TrimSpace (concat (map (leafBody rejectingDecoders) (textLeaves (Parts threePartMessage))))
              = ''Plain text part. URL: http://plain.com'' @ [CHR 0x0A] @ '' HTML part. URL:  html''"
    unfolding l by (simp add: leafBody_def u eval_defs)
  have r2: "uniqueTrimmed (concat (map (leafUrls rejectingDecoders) (textLeaves (Parts threePartMessage))))
              = [''http://plain.com'', ''http://html.com/'']"
    unfolding l by (simp add: leafUrls_def u eval_defs)
  have t: "extractBodyAndURLs rejectingDecoders threePartMessage
             = Inr (''Plain text part. URL: http://plain.com'' @ [CHR 0x0A] @ '' HTML part. URL:  html'',
                    [''http://plain.com'', ''http://html.com/''])"
    using multipart_direct_text_children[OF h1 h2 h3, of rejectingDecoders] unfolding r1 r2 .
  show ?thesis using h1 h2 h3 t by blast
qed

subsection \<open>C2: a charset that cannot be decoded\<close>



subsection \<open>C3: no charset, or UTF-8\<close>

text \<open>
  C3. With a charset parameter that is empty or absent, or that is \<open>utf-8\<close> in any
  mix of upper and lower case, the content is returned as it is, whatever its bytes.
\<close>

theorem utf8_or_no_charset_is_identity:
  assumes "charset = [] \<or> map asciiLower charset = ''utf-8''"
  shows "decodeContent d content (params(''charset'' \<mapsto> charset)) = content
       \<and> (params ''charset'' = None \<longrightarrow> decodeContent d content params = content)
       \<and> (map asciiLower charset = ''utf-8'' \<longrightarrow> decodeCharset d content charset = Inr content)"
  using assms by (auto simp: decodeContent_def lookup_def decodeCharset_utf8)

theorem utf8_or_no_charset_is_identity_witness:
  "map asciiLower ''Utf-8'' = ''utf-8''
   \<and> decodeContent rejectingDecoders [CHR 0xFF, CHR 0x41] [''charset'' \<mapsto> ''Utf-8''] = [CHR 0xFF, CHR 0x41]
   \<and> decodeCharset rejectingDecoders [CHR 0xFF, CHR 0x41] ''Utf-8'' = Inr [CHR 0xFF, CHR 0x41]"
proof -
  have h: "''Utf-8'' = [] \<or> map asciiLower ''Utf-8'' = ''utf-8''"
    by code_simp
  then have h': "map asciiLower ''Utf-8'' = ''utf-8''"
    by simp
  from utf8_or_no_charset_is_identity[OF h, of rejectingDecoders "[CHR 0xFF, CHR 0x41]" Map.empty] h'
  show ?thesis by blast
qed

subsection \<open>C4: the URL list has no duplicates and keeps the order of first occurrence\<close>

text \<open>
  C4. The URL list that \<open>extractBodyAndURLs\<close> returns has no duplicates, its entries
  are exactly the URLs collected from the message with their trailing punctuation
  trimmed (compared as they are, byte for byte), and they stand in the order in which
  they are first seen: the positions of their first occurrences in the trimmed list of
  collected URLs increase strictly.
\<close>

theorem urls_distinct_in_first_seen_order:
  assumes "extractBodyAndURLs d entity = Inr (body, resultUrls)"
  shows "\<exists>bodyBuilder urls. collect d entity = Inr (bodyBuilder, urls) \<and>
           distinct resultUrls \<and>
           set resultUrls = set (map (\<lambda>u. TrimRight u ''.?!,;)'') urls) \<and>
           sorted_wrt (<) (map (\<lambda>x. firstIndex x (map (\<lambda>u. TrimRight u ''.?!,;)'') urls)) resultUrls)"
proof -
  from extract_Inr[OF assms] obtain bodyBuilder urls where
    c: "collect d entity = Inr (bodyBuilder, urls)" and r: "resultUrls = uniqueTrimmed urls"
    by blast
  show ?thesis using c uniqueTrimmed_props[of urls] unfolding r by blast
qed

theorem urls_distinct_in_first_seen_order_witness:
  "extractBodyAndURLs rejectingDecoders
     (textMessage ''text/plain'' Map.empty
        ''http://b.example/x. http://a.example http://b.example/x, http://b.example/X'')
   = Inr (''http://b.example/x. http://a.example http://b.example/x, http://b.example/X'',
          [''http://b.example/x'', ''http://a.example'', ''http://b.example/X''])
   \<and> (\<exists>bodyBuilder urls.
         collect rejectingDecoders
           (textMessage ''text/plain'' Map.empty
              ''http://b.example/x. http://a.example http://b.example/x, http://b.example/X'')
           = Inr (bodyBuilder, urls) \<and>
         distinct [''http://b.example/x'', ''http://a.example'', ''http://b.example/X''] \<and>
         set [''http://b.example/x'', ''http://a.example'', ''http://b.example/X'']
           = set (map (\<lambda>u. TrimRight u ''.?!,;)'') urls) \<and>
         sorted_wrt (<) (map (\<lambda>x. firstIndex x (map (\<lambda>u. TrimRight u ''.?!,;)'') urls))
           [''http://b.example/x'', ''http://a.example'', ''http://b.example/X'']))"
proof -
  have h: "extractBodyAndURLs rejectingDecoders
     (textMessage ''text/plain'' Map.empty
        ''http://b.example/x. http://a.example http://b.example/x, http://b.example/X'')
   = Inr (''http://b.example/x. http://a.example http://b.example/x, http://b.example/X'',
          [''http://b.example/x'', ''http://a.example'', ''http://b.example/X''])"
    by (simp add: eval_defs)
  from urls_distinct_in_first_seen_order[OF h] h show ?thesis by blast
qed

subsection \<open>C5: trailing punctuation\<close>

text \<open>
  C5. The URL list is made from the URLs of both passes by \<open>TrimRight\<close> with the cut
  set \<open>.?!,;)\<close> and then made unique, so no entry ends in one of these characters;
  and the text \<open>Check this out: http://example.com/page, or this one: http://google.com).\<close>
  gives exactly \<open>http://example.com/page\<close>, \<open>http://google.com\<close>.
\<close>

theorem trailing_punctuation_trimmed:
  "(extractBodyAndURLs d entity = Inr (body, resultUrls) \<longrightarrow>
      (\<exists>bodyBuilder urls. collect d entity = Inr (bodyBuilder, urls) \<and>
         resultUrls = uniqueTrimmed urls \<and>
         set resultUrls = set (map (\<lambda>u. TrimRight u ''.?!,;)'') urls)) \<and>
      (\<forall>u\<in>set resultUrls. TrimRight u ''.?!,;)'' = u \<and> (u \<noteq> [] \<longrightarrow> last u \<notin> set ''.?!,;)'')))
   \<and> extractBodyAndURLs d
        (textMessage ''text/plain'' Map.empty
           ''Check this out: http://example.com/page, or this one: http://google.com).'')
      = Inr (''Check this out: http://example.com/page, or this one: http://google.com).'',
             [''http://example.com/page'', ''http://google.com''])"
proof (intro conjI impI)
  assume a: "extractBodyAndURLs d entity = Inr (body, resultUrls)"
  from extract_Inr[OF a] obtain bodyBuilder urls where
    c: "collect d entity = Inr (bodyBuilder, urls)" and r: "resultUrls = uniqueTrimmed urls"
    by blast
  show "\<exists>bodyBuilder urls. collect d entity = Inr (bodyBuilder, urls) \<and>
         resultUrls = uniqueTrimmed urls \<and>
         set resultUrls = set (map (\<lambda>u. TrimRight u ''.?!,;)'') urls)"
    using c r uniqueTrimmed_props[of urls] by blast
  show "\<forall>u\<in>set resultUrls. TrimRight u ''.?!,;)'' = u \<and> (u \<noteq> [] \<longrightarrow> last u \<notin> set ''.?!,;)'')"
  proof
    fix u assume "u \<in> set resultUrls"
    then have t: "TrimRight u ''.?!,;)'' = u" unfolding r by (rule uniqueTrimmed_trimmed)
    show "TrimRight u ''.?!,;)'' = u \<and> (u \<noteq> [] \<longrightarrow> last u \<notin> set ''.?!,;)'')"
      using t TrimRight_last[of u "''.?!,;)''"] by simp
  qed
next
  show "extractBodyAndURLs d
        (textMessage ''text/plain'' Map.empty
           ''Check this out: http://example.com/page, or this one: http://google.com).'')
      = Inr (''Check this out: http://example.com/page, or this one: http://google.com).'',
             [''http://example.com/page'', ''http://google.com''])"
    by (simp add: eval_defs)
qed

theorem trailing_punctuation_trimmed_witness:
  "extractBodyAndURLs rejectingDecoders
     (textMessage ''text/html'' Map.empty
        (''<a href='' @ [CHR 0x22] @ ''http://a.example/p).'' @ [CHR 0x22] @ ''>see</a> http://b.example/q?!''))
   = Inr (''see  http://b.example/q?!'', [''http://a.example/p'', ''http://b.example/q''])
   \<and> TrimRight ''http://a.example/p'' ''.?!,;)'' = ''http://a.example/p''
   \<and> TrimRight ''http://b.example/q'' ''.?!,;)'' = ''http://b.example/q''
   \<and> last ''http://a.example/p'' \<notin> set ''.?!,;)''
   \<and> last ''http://b.example/q'' \<notin> set ''.?!,;)''"
proof -
  have h: "extractBodyAndURLs rejectingDecoders
     (textMessage ''text/html'' Map.empty
        (''<a href='' @ [CHR 0x22] @ ''http://a.example/p).'' @ [CHR 0x22] @ ''>see</a> http://b.example/q?!''))
   = Inr (''see  http://b.example/q?!'', [''http://a.example/p'', ''http://b.example/q''])"
    by (simp add: eval_defs)
  from trailing_punctuation_trimmed[of rejectingDecoders _ _ _] h
  have "\<forall>u\<in>set [''http://a.example/p'', ''http://b.example/q''].
          TrimRight u ''.?!,;)'' = u \<and> (u \<noteq> [] \<longrightarrow> last u \<notin> set ''.?!,;)'')"
    by blast
  then show ?thesis using h by simp
qed

subsection \<open>C6: harvesting again\<close>

text \<open>
  C6, as stated, includes the extraction in what is run again. An href value is taken
  as it stands up to the closing quote and may hold a space; the free-text pattern stops
  at the space. The HTML text \<open><a href="http://a.example/x y">t</a>\<close> gives the list
  \<open>http://a.example/x y\<close>, and harvesting that list again, as text/plain or as
  text/html, gives \<open>http://a.example/x\<close>.
\<close>

theorem harvest_again_counterexample:
  "extractBodyAndURLs rejectingDecoders
     (textMessage ''text/html'' Map.empty
        (''<a href='' @ [CHR 0x22] @ ''http://a.example/x y'' @ [CHR 0x22] @ ''>t</a>''))
   = Inr (''t'', [''http://a.example/x y''])
   \<and> harvestAgain rejectingDecoders ''text/plain'' [''http://a.example/x y''] = Inr [''http://a.example/x'']
   \<and> harvestAgain rejectingDecoders ''text/html'' [''http://a.example/x y''] = Inr [''http://a.example/x'']
   \<and> [''http://a.example/x''] \<noteq> [''http://a.example/x y'']"
  by (simp add: eval_defs harvestAgain_def)

text \<open>
  C6, amended. Trimming the trailing punctuation of the URL list and making it unique
  once more gives the same list.
\<close>

theorem trim_and_unique_idempotent:
  assumes "extractBodyAndURLs d entity = Inr (body, resultUrls)"
  shows "uniqueTrimmed resultUrls = resultUrls"
proof -
  from extract_Inr[OF assms] obtain urls where r: "resultUrls = uniqueTrimmed urls"
    by blast
  have "distinct resultUrls" unfolding r using uniqueTrimmed_props[of urls] by blast
  moreover have "\<forall>u\<in>set resultUrls. TrimRight u ''.?!,;)'' = u"
    unfolding r using uniqueTrimmed_trimmed by blast
  ultimately show ?thesis by (rule uniqueTrimmed_fixed)
qed

theorem trim_and_unique_idempotent_witness:
  "extractBodyAndURLs rejectingDecoders
     (textMessage ''text/html'' Map.empty
        (''<a href='' @ [CHR 0x22] @ ''http://a.example/x y.'' @ [CHR 0x22] @ ''>t</a> http://a.example/x, http://a.example/x''))
   = Inr (''t  http://a.example/x, http://a.example/x'', [''http://a.example/x y'', ''http://a.example/x''])
   \<and> uniqueTrimmed [''http://a.example/x y'', ''http://a.example/x''] = [''http://a.example/x y'', ''http://a.example/x'']"
proof -
  have h: "extractBodyAndURLs rejectingDecoders
     (textMessage ''text/html'' Map.empty
        (''<a href='' @ [CHR 0x22] @ ''http://a.example/x y.'' @ [CHR 0x22] @ ''>t</a> http://a.example/x, http://a.example/x''))
   = Inr (''t  http://a.example/x, http://a.example/x'', [''http://a.example/x y'', ''http://a.example/x''])"
    by (simp add: eval_defs)
  from trim_and_unique_idempotent[OF h] h show ?thesis by blast
qed

subsection \<open>C7: multipart without a boundary\<close>

text \<open>
  C7. When the media type starts with \<open>multipart/\<close> and the boundary parameter is
  absent or empty, the body builder holds what \<open>io.ReadAll\<close> returned for the body
  and nothing else, whatever the decoders, the charset parameter and the error of the
  read; the URL list is empty; the body returned is that content with the white space
  at both ends trimmed; \<open>Parse\<close> returns a record.
\<close>

theorem multipart_without_boundary_is_raw_text:
  assumes "hContentType (Header entity) = Inr (mediaType, params)"
    and "prefix ''multipart/'' mediaType"
    and "params ''boundary'' = None \<or> params ''boundary'' = Some []"
  shows "collect d entity = Inr (fst (Body entity), [])
       \<and> extractBodyAndURLs d entity = Inr (TrimSpace (fst (Body entity)), [])
       \<and> Parse d (Inr entity) =
           Inr \<lparr>MessageID = Trim (fst (hMessageID (Header entity))) ''<> '',
                From = fst (hFrom (Header entity)), To = fst (hTo (Header entity)),
                Subject = fst (hSubject (Header entity)),
                Body_text = TrimSpace (fst (Body entity)), URLs = [],
                Header_of = Header entity\<rparr>"
proof -
  have b: "lookup params ''boundary'' = []"
    using assms(3) by (auto simp: lookup_def)
  have c: "collect d entity = Inr (fst (Body entity), [])"
    using collect_multipart[OF assms(1,2), of d] b by simp
  have e: "extractBodyAndURLs d entity = Inr (TrimSpace (fst (Body entity)), [])"
    by (simp add: extractBodyAndURLs_def c uniqueTrimmed_Nil)
  show ?thesis using c e by (simp add: Parse_def Let_def)
qed

theorem multipart_without_boundary_is_raw_text_witness:
  "hContentType (Header \<lparr>Header = bareHeader ''multipart/mixed'' [''charset'' \<mapsto> ''iso-2022-jp''],
                         Body = (''  see http://a.example/x now '', Some (External ''unexpected EOF'')),
                         Parts = []\<rparr>)
     = Inr (''multipart/mixed'', [''charset'' \<mapsto> ''iso-2022-jp''])
   \<and> prefix ''multipart/'' ''multipart/mixed''
   \<and> [''charset'' \<mapsto> ''iso-2022-jp''] ''boundary'' = None
   \<and> extractBodyAndURLs rejectingDecoders
        \<lparr>Header = bareHeader ''multipart/mixed'' [''charset'' \<mapsto> ''iso-2022-jp''],
         Body = (''  see http://a.example/x now '', Some (External ''unexpected EOF'')),
         Parts = []\<rparr>
     = Inr (''see http://a.example/x now'', [])"
proof -
  let ?e = "\<lparr>Header = bareHeader ''multipart/mixed'' [''charset'' \<mapsto> ''iso-2022-jp''],
             Body = (''  see http://a.example/x now '', Some (External ''unexpected EOF'')),
             Parts = []\<rparr>"
  have h1: "hContentType (Header ?e) = Inr (''multipart/mixed'', [''charset'' \<mapsto> ''iso-2022-jp''])"
    by (simp add: bareHeader_def)
  have h2: "prefix ''multipart/'' ''multipart/mixed''" by simp
  have h3: "[''charset'' \<mapsto> ''iso-2022-jp''] ''boundary'' = None
            \<or> [''charset'' \<mapsto> ''iso-2022-jp''] ''boundary'' = Some []" by simp
  have t: "TrimSpace ''  see http://a.example/x now '' = ''see http://a.example/x now''"
    by (simp add: TrimSpace_def spaceSeqs_def spaceLen_def)
  from multipart_without_boundary_is_raw_text[OF h1 h2 h3, of rejectingDecoders] h1 h2 t
  show ?thesis by simp
qed

subsection \<open>C8: tags\<close>

text \<open>
  C8. The dot of \<^verbatim>\<open><.*?>\<close> does not match a line feed, so a tag that is broken over
  two lines is not replaced: for the HTML text made of \<open><a\<close>, a line feed and
  \<open>href="https://example.org">link</a>\<close> the opening tag stays in the body.
\<close>

theorem multiline_tag_not_stripped:
  "extractBodyAndURLs d
     (textMessage ''text/html'' Map.empty
        (''<a'' @ [CHR 0x0A] @ ''href='' @ [CHR 0x22] @ ''https://example.org'' @ [CHR 0x22] @ ''>link</a>''))
   = Inr (''<a'' @ [CHR 0x0A] @ ''href='' @ [CHR 0x22] @ ''https://example.org'' @ [CHR 0x22] @ ''>link'',
          [''https://example.org''])"
  by (simp add: eval_defs)

text \<open>
  The example of C8, on one line, behaves as stated: the body is
  \<open>Hello This is a link .\<close> once its white space is normalised as the test does, and
  the URL list is \<open>https://example.org\<close>.
\<close>

lemma html_example:
  "extractBodyAndURLs d
     (textMessage ''text/html'' Map.empty
        (''<h1>Hello</h1><p>This is a <a href='' @ [CHR 0x22] @ ''https://example.org'' @ [CHR 0x22]
           @ ''>link</a>.</p>''))
   = Inr (''Hello  This is a  link .'', [''https://example.org''])
   \<and> normalize ''Hello  This is a  link .'' = ''Hello This is a link .''"
  by (simp add: eval_defs normalize_def Fields_def)

subsection \<open>C9: one message that cannot be parsed\<close>

text \<open>
  C9. When \<open>Parse\<close> fails on one message of the mbox, the loop logs the failure and
  goes on: the results are those of the messages before it followed by those of the
  messages after it, each computed as if the others were not there, and the log has the
  warning for that message between the two logs.
\<close>

theorem parse_failure_skips_one_message:
  assumes "Parse d bad = Inl err"
  shows "messagesLoop d Analyze addrString (before @ NextMessage bad # after) ([], []) =
           (fst (messagesLoop d Analyze addrString before ([], []))
              @ fst (messagesLoop d Analyze addrString after ([], [])),
            snd (messagesLoop d Analyze addrString before ([], []))
              @ [FailedToParseEmail err]
              @ snd (messagesLoop d Analyze addrString after ([], [])))"
proof -
  obtain r1 l1 where b: "messagesLoop d Analyze addrString before ([], []) = (r1, l1)"
    by (cases "messagesLoop d Analyze addrString before ([], [])") auto
  have "messagesLoop d Analyze addrString (before @ NextMessage bad # after) ([], [])
          = messagesLoop d Analyze addrString after (r1, l1 @ [FailedToParseEmail err])"
    by (simp add: messagesLoop_append b assms)
  also have "\<dots> = (r1 @ fst (messagesLoop d Analyze addrString after ([], [])),
                   (l1 @ [FailedToParseEmail err]) @ snd (messagesLoop d Analyze addrString after ([], [])))"
    by (rule messagesLoop_acc)
  finally show ?thesis by (simp add: b)
qed

theorem parse_failure_skips_one_message_witness:
  "Parse rejectingDecoders (Inl (External ''malformed MIME header line'')) =
     Inl (ReadEntityFailed (External ''malformed MIME header line''))
   \<and> messagesLoop rejectingDecoders (\<lambda>p. Inr (URLs p)) Address
       [NextMessage (Inr (mailMessage ''<one@example.com>'' ''First'' ''see http://one.example.'')),
        NextMessage (Inl (External ''malformed MIME header line'')),
        NextMessage (Inr (mailMessage ''<three@example.com>'' ''Third'' ''see http://three.example.''))]
       ([], [])
     = ([\<lparr>res_MessageID = ''one@example.com'', res_Subject = ''First'',
          res_From = [''sender@example.com''], res_To = [''recipient@example.com''],
          res_Judgment = [''http://one.example'']\<rparr>,
         \<lparr>res_MessageID = ''three@example.com'', res_Subject = ''Third'',
          res_From = [''sender@example.com''], res_To = [''recipient@example.com''],
          res_Judgment = [''http://three.example'']\<rparr>],
        [FailedToParseEmail (ReadEntityFailed (External ''malformed MIME header line''))])"
proof -
  have h: "Parse rejectingDecoders (Inl (External ''malformed MIME header line'')) =
     Inl (ReadEntityFailed (External ''malformed MIME header line''))"
    by (simp add: Parse_def)
  have p1: "Parse rejectingDecoders (Inr (mailMessage ''<one@example.com>'' ''First'' ''see http://one.example.''))
     = Inr \<lparr>MessageID = ''one@example.com'', From = [\<lparr>Name = [], Address = ''sender@example.com''\<rparr>],
            To = [\<lparr>Name = [], Address = ''recipient@example.com''\<rparr>], Subject = ''First'',
            Body_text = ''see http://one.example.'', URLs = [''http://one.example''],
            Header_of = Header (mailMessage ''<one@example.com>'' ''First'' ''see http://one.example.'')\<rparr>"
    by (simp add: Parse_def mailMessage_def Trim_def eval_defs)
  have p3: "Parse rejectingDecoders (Inr (mailMessage ''<three@example.com>'' ''Third'' ''see http://three.example.''))
     = Inr \<lparr>MessageID = ''three@example.com'', From = [\<lparr>Name = [], Address = ''sender@example.com''\<rparr>],
            To = [\<lparr>Name = [], Address = ''recipient@example.com''\<rparr>], Subject = ''Third'',
            Body_text = ''see http://three.example.'', URLs = [''http://three.example''],
            Header_of = Header (mailMessage ''<three@example.com>'' ''Third'' ''see http://three.example.'')\<rparr>"
    by (simp add: Parse_def mailMessage_def Trim_def eval_defs)
  from parse_failure_skips_one_message[OF h, of "\<lambda>p. Inr (URLs p)" Address
      "[NextMessage (Inr (mailMessage ''<one@example.com>'' ''First'' ''see http://one.example.''))]"
      "[NextMessage (Inr (mailMessage ''<three@example.com>'' ''Third'' ''see http://three.example.''))]"]
  show ?thesis using h p1 p3 by (simp add: convertAddresses_def)
qed

subsection \<open>C10: when Parse fails\<close>



end
